theory Spec2Isabelle
  imports Main "HOL-Library.Word"
begin

section \<open>RenderDoc auto-capture helper of vkd3d-proton (libs/vkd3d-common/renderdoc.c)\<close>

text \<open>
  The translation unit keeps its configuration in file-scope statics, reads two environment
  variables once, and decides per queue submission whether a capture starts. The statics
  become one record, every function a state transformer on it. C strings are
  \<^typ>\<open>string\<close> (the bytes before the terminating NUL, so \<open>*p == '\0'\<close> is \<open>p = []\<close>
  and \<open>p + 1\<close> is \<^const>\<open>tl\<close>), \<open>uint32_t\<close> is \<^typ>\<open>32 word\<close> and
  \<open>vkd3d_shader_hash_t\<close> (\<open>uint64_t\<close>) is \<^typ>\<open>64 word\<close>.
\<close>

subsection \<open>The C library conversions \<open>strtoul\<close> and \<open>strtoull\<close>\<close>

text \<open>
  \<open>unsigned long\<close> has 32 bits on Windows (ILP32 and LLP64) and 64 bits on 64-bit Linux
  (LP64); \<open>unsigned long long\<close> has 64 bits on all three.
\<close>

datatype data_model = ILP32 | LLP64 | LP64

fun ULONG_MAX :: "data_model \<Rightarrow> nat" where
  "ULONG_MAX ILP32 = 4294967295"
| "ULONG_MAX LLP64 = 4294967295"
| "ULONG_MAX LP64 = 18446744073709551615"

definition ULLONG_MAX :: nat where
  "ULLONG_MAX = 18446744073709551615"

definition ERANGE :: nat where
  "ERANGE = 34"

text \<open>\<open>isspace\<close> in the C locale: space, and the control characters \<open>\t \n \v \f \r\<close>.\<close>

definition isspace :: "char \<Rightarrow> bool" where
  "isspace c = (c = CHR 0x20 \<or> c = CHR 0x09 \<or> c = CHR 0x0A \<or> c = CHR 0x0B
     \<or> c = CHR 0x0C \<or> c = CHR 0x0D)"

text \<open>The value of a character as a digit: \<open>0-9\<close>, then letters of either case from 10.\<close>

definition digit_value :: "char \<Rightarrow> nat option" where
  "digit_value c =
     (let n = (of_char c :: nat) in
      if 48 \<le> n \<and> n \<le> 57 then Some (n - 48)
      else if 97 \<le> n \<and> n \<le> 122 then Some (n - 87)
      else if 65 \<le> n \<and> n \<le> 90 then Some (n - 55)
      else None)"

definition digit_in_base :: "nat \<Rightarrow> char \<Rightarrow> nat option" where
  "digit_in_base base c =
     (case digit_value c of
        None \<Rightarrow> None
      | Some d \<Rightarrow> if d < base then Some d else None)"

text \<open>
  The digit loop: consumes the longest run of digits of the base, returns the exact value
  of the run and the unread rest. The range check is made on the exact value afterwards.
\<close>

fun scan_digits :: "nat \<Rightarrow> nat \<Rightarrow> string \<Rightarrow> nat \<times> string" where
  "scan_digits base acc [] = (acc, [])"
| "scan_digits base acc (c # cs) =
     (case digit_in_base base c of
        None \<Rightarrow> (acc, c # cs)
      | Some d \<Rightarrow> scan_digits base (acc * base + d) cs)"

definition has_digit :: "nat \<Rightarrow> string \<Rightarrow> bool" where
  "has_digit base s = (case s of [] \<Rightarrow> False | c # cs \<Rightarrow> digit_in_base base c \<noteq> None)"

definition is_x :: "char \<Rightarrow> bool" where
  "is_x c = (c = CHR ''x'' \<or> c = CHR ''X'')"

text \<open>
  \<open>strtox maxv nptr base\<close> is ISO C \<open>strtoul\<close>/\<open>strtoull\<close> for base 0 or 16 on a type
  with largest value \<open>maxv\<close>, as glibc and the Microsoft runtime implement it. The result
  is the returned value, \<open>*endptr\<close>, and the value of \<open>errno\<close> after the call when it was 0
  before:
  \<^item> leading white space and one optional sign are skipped;
  \<^item> base 0 selects 16 after \<open>0x\<close>/\<open>0X\<close>, 8 after another \<open>0\<close>, else 10; base 16 accepts
    the \<open>0x\<close> prefix; a prefix that no hexadecimal digit follows converts the \<open>0\<close> alone
    and leaves \<open>endptr\<close> at the \<open>x\<close>;
  \<^item> with no digit at all nothing is converted: the value is 0, \<open>endptr\<close> is \<open>nptr\<close>, and
    \<open>errno\<close> is not touched;
  \<^item> a value above \<open>maxv\<close> gives \<open>maxv\<close> and \<open>ERANGE\<close>, with all digits consumed;
  \<^item> a minus sign negates the converted value in the unsigned type.
\<close>

definition skip_sign :: "string \<Rightarrow> string" where
  "skip_sign s =
     (case s of
        [] \<Rightarrow> []
      | c # cs \<Rightarrow> if c = CHR ''-'' \<or> c = CHR ''+'' then cs else c # cs)"

definition is_negative :: "string \<Rightarrow> bool" where
  "is_negative s = (case s of [] \<Rightarrow> False | c # cs \<Rightarrow> c = CHR ''-'')"

definition has_hex_prefix :: "nat \<Rightarrow> string \<Rightarrow> bool" where
  "has_hex_prefix base0 s =
     (case s of
        z # x # cs \<Rightarrow> z = CHR ''0'' \<and> is_x x \<and> (base0 = 0 \<or> base0 = 16)
      | _ \<Rightarrow> False)"

definition select_base :: "nat \<Rightarrow> string \<Rightarrow> nat" where
  "select_base base0 s =
     (if base0 \<noteq> 0 then base0
      else (case s of [] \<Rightarrow> 10 | c # cs \<Rightarrow> if c = CHR ''0'' then 8 else 10))"

definition convert :: "nat \<Rightarrow> bool \<Rightarrow> nat \<Rightarrow> string \<Rightarrow> nat \<times> string \<times> nat" where
  "convert maxv neg base s =
     (case scan_digits base 0 s of
        (v, endp) \<Rightarrow>
          if maxv < v then (maxv, endp, ERANGE)
          else if neg then ((maxv + 1 - v) mod (maxv + 1), endp, 0)
          else (v, endp, 0))"

definition strtox :: "nat \<Rightarrow> string \<Rightarrow> nat \<Rightarrow> nat \<times> string \<times> nat" where
  "strtox maxv nptr base0 =
     (let s1 = dropWhile isspace nptr;
          neg = is_negative s1;
          s2 = skip_sign s1
      in if has_hex_prefix base0 s2 then
           (if has_digit 16 (drop 2 s2) then convert maxv neg 16 (drop 2 s2)
            else (0, tl s2, 0))
         else
           (let base = select_base base0 s2
            in if has_digit base s2 then convert maxv neg base s2
               else (0, nptr, 0)))"

definition strtoul :: "data_model \<Rightarrow> string \<Rightarrow> nat \<Rightarrow> nat \<times> string \<times> nat" where
  "strtoul dm nptr base = strtox (ULONG_MAX dm) nptr base"

definition strtoull :: "string \<Rightarrow> nat \<Rightarrow> nat \<times> string \<times> nat" where
  "strtoull nptr base = strtox ULLONG_MAX nptr base"

subsection \<open>The statics of the translation unit\<close>

text \<open>
  Diagnostics written through the \<open>ERR\<close>, \<open>WARN\<close> and \<open>TRACE\<close> macros, and the calls made
  through the RenderDoc API table, are kept as lists in the state, in program order.
\<close>

datatype log_msg =
    ERR_parsing_auto_counts
  | TRACE_capture_of_submit "32 word"
  | ERR_unexpected_character char
  | WARN_auto_capture_not_enabled
  | WARN_counts_not_set
  | TRACE_capture_for_shader_hash "64 word"
  | TRACE_capture_for_all_shaders
  | ERR_failed_to_load_library
  | ERR_failed_to_load_get_api
  | ERR_failed_to_obtain_api

datatype api_call = StartFrameCapture nat | EndFrameCapture nat

text \<open>
  \<open>renderdoc_capture_counts\<close> with \<open>renderdoc_capture_counts_count\<close> is a list: the first
  \<open>count\<close> elements of the array. \<open>renderdoc_api\<close> is \<open>None\<close> for the null pointer.
  \<open>overall_counter\<close> is the function-level static of \<open>vkd3d_renderdoc_begin_capture\<close>,
  \<open>vkd3d_renderdoc_once\<close> tells whether the \<open>pthread_once\<close> control has fired.
\<close>

record state =
  renderdoc_api :: "nat option"
  renderdoc_capture_shader_hash :: "64 word"
  renderdoc_capture_counts :: "32 word list"
  vkd3d_renderdoc_is_active :: bool
  overall_counter :: "32 word"
  vkd3d_renderdoc_once :: bool
  log :: "log_msg list"
  api_calls :: "api_call list"

text \<open>Static storage is zero-initialised.\<close>

definition initial_state :: state where
  "initial_state =
     \<lparr>renderdoc_api = None, renderdoc_capture_shader_hash = 0,
      renderdoc_capture_counts = [], vkd3d_renderdoc_is_active = False,
      overall_counter = 0, vkd3d_renderdoc_once = False, log = [], api_calls = []\<rparr>"

text \<open>
  What initialisation reads from the process: the two environment variables (\<open>None\<close> when
  \<open>getenv\<close> returns null), whether the RenderDoc module is already resident, and the
  \<open>RENDERDOC_GetAPI\<close> entry point: \<open>None\<close> when the symbol is not found, else the value it
  returns together with the pointer it stores through its out parameter.
\<close>

record environment =
  abi :: data_model
  VKD3D_AUTO_CAPTURE_SHADER :: "string option"
  VKD3D_AUTO_CAPTURE_COUNTS :: "string option"
  renderdoc_module :: bool
  RENDERDOC_GetAPI :: "(int \<times> nat option) option"

definition write_log :: "log_msg \<Rightarrow> state \<Rightarrow> state" where
  "write_log m s = s\<lparr>log := log s @ [m]\<rparr>"

subsection \<open>Parsing \<open>VKD3D_AUTO_CAPTURE_COUNTS\<close>\<close>

text \<open>
  \<open>vkd3d_array_reserve\<close> is assumed to succeed (its result is not checked by the source),
  so the store at index \<open>renderdoc_capture_counts_count++\<close> appends to the list. The
  assignment to the \<open>uint32_t count\<close> truncates the \<open>unsigned long\<close> to 32 bits.
\<close>

definition append_count :: "32 word \<Rightarrow> state \<Rightarrow> state" where
  "append_count count s =
     (write_log (TRACE_capture_of_submit count) s)
       \<lparr>renderdoc_capture_counts := renderdoc_capture_counts s @ [count]\<rparr>"

function vkd3d_renderdoc_init_capture_count_list :: "data_model \<Rightarrow> string \<Rightarrow> state \<Rightarrow> state" where
  "vkd3d_renderdoc_init_capture_count_list dm [] s = s"
| "vkd3d_renderdoc_init_capture_count_list dm (e # es) s =
     (case strtoul dm (e # es) 0 of
        (v, endp, errno) \<Rightarrow>
          if errno \<noteq> 0 then write_log ERR_parsing_auto_counts s
          else
            (let count = (word_of_nat v :: 32 word);
                 s1 = append_count count s
             in case endp of
                  c # rest \<Rightarrow>
                    if c = CHR '','' then vkd3d_renderdoc_init_capture_count_list dm rest s1
                    else write_log (ERR_unexpected_character c) s1
                | [] \<Rightarrow> vkd3d_renderdoc_init_capture_count_list dm [] s1))"
  by pat_completeness auto

text \<open>
  The loop ends: \<open>strtoul\<close> leaves \<open>endp\<close> inside the string it was given, so after a comma
  the rest is shorter, and at the terminating NUL the loop condition fails.
\<close>

termination
proof (relation "measure (\<lambda>(dm, env, s). length env)", goal_cases)
  case 1
  show ?case by simp
next
  case 2
  show ?case by simp
next
  case (3 dm e es s v y endp errno count s1 c rest)
  have scan: "length (snd (scan_digits b acc t)) \<le> length t" for b acc t
    by (induction t arbitrary: acc) (auto split: option.splits intro: le_SucI)
  have conv: "length (fst (snd (convert m neg b t))) \<le> length t" for m neg b t
    using scan [of b 0 t] by (auto simp: convert_def split: prod.splits)
  have endp: "length (fst (snd (strtox m nptr 0))) \<le> length nptr" for m nptr
  proof -
    let ?s2 = "skip_sign (dropWhile isspace nptr)"
    have "length ?s2 \<le> length (dropWhile isspace nptr)"
      by (simp add: skip_sign_def split: list.splits)
    also have "\<dots> \<le> length nptr"
      by (rule length_dropWhile_le)
    finally have l2: "length ?s2 \<le> length nptr" .
    have "length (fst (snd (convert m neg b ?s2))) \<le> length nptr"
      and "length (fst (snd (convert m neg b (drop 2 ?s2)))) \<le> length nptr"
      and "length (tl ?s2) \<le> length nptr" for neg b
      using conv [of m neg b ?s2] conv [of m neg b "drop 2 ?s2"] l2 by simp_all
    then show ?thesis
      unfolding strtox_def Let_def by simp
  qed
  have "length (fst (snd (strtoul dm (e # es) 0))) \<le> length (e # es)"
    unfolding strtoul_def by (rule endp)
  moreover from 3 have "fst (snd (strtoul dm (e # es) 0)) = c # rest"
    by (metis fst_conv snd_conv)
  ultimately show ?case by simp
qed

text \<open>
  The loop of \<open>vkd3d_renderdoc_enable_submit_counter\<close> over the indices
  \<open>0 .. renderdoc_capture_counts_count - 1\<close>, as a scan of the list from its head.
\<close>

fun scan_capture_counts :: "32 word list \<Rightarrow> 32 word \<Rightarrow> bool" where
  "scan_capture_counts [] counter = False"
| "scan_capture_counts (c # cs) counter =
     (if c = counter then True else scan_capture_counts cs counter)"

definition vkd3d_renderdoc_enable_submit_counter :: "state \<Rightarrow> 32 word \<Rightarrow> bool" where
  "vkd3d_renderdoc_enable_submit_counter s counter =
     scan_capture_counts (renderdoc_capture_counts s) counter"

subsection \<open>Initialisation\<close>

text \<open>
  The tail of \<open>vkd3d_renderdoc_init_once\<close>: looking up the resident module, its entry
  point, and asking it for the API table, which it stores into \<open>renderdoc_api\<close>.
\<close>

definition load_renderdoc_api :: "environment \<Rightarrow> state \<Rightarrow> state" where
  "load_renderdoc_api e s =
     (if \<not> renderdoc_module e then write_log ERR_failed_to_load_library s
      else
        (case RENDERDOC_GetAPI e of
           None \<Rightarrow> write_log ERR_failed_to_load_get_api s
         | Some (ret, api) \<Rightarrow>
             if ret = 0 then (write_log ERR_failed_to_obtain_api s)\<lparr>renderdoc_api := None\<rparr>
             else s\<lparr>renderdoc_api := api\<rparr>))"

definition vkd3d_renderdoc_init_once :: "environment \<Rightarrow> state \<Rightarrow> state" where
  "vkd3d_renderdoc_init_once e s =
     (let env = VKD3D_AUTO_CAPTURE_SHADER e;
          counts = VKD3D_AUTO_CAPTURE_COUNTS e
      in if env = None \<and> counts = None then write_log WARN_auto_capture_not_enabled s
         else
           (let s1 = (if counts = None then write_log WARN_counts_not_set s else s);
                s2 = (case env of
                        None \<Rightarrow> s1
                      | Some h \<Rightarrow>
                          s1\<lparr>renderdoc_capture_shader_hash :=
                                word_of_nat (fst (strtoull h 16))\<rparr>);
                s3 = (if renderdoc_capture_shader_hash s2 \<noteq> 0
                      then write_log
                             (TRACE_capture_for_shader_hash (renderdoc_capture_shader_hash s2)) s2
                      else write_log TRACE_capture_for_all_shaders s2);
                s4 = (case counts of
                        Some c \<Rightarrow> vkd3d_renderdoc_init_capture_count_list (abi e) c s3
                      | None \<Rightarrow> s3\<lparr>renderdoc_capture_counts := [0]\<rparr>);
                s5 = s4\<lparr>vkd3d_renderdoc_is_active := True\<rparr>
            in load_renderdoc_api e s5))"

text \<open>\<open>pthread_once\<close>: the routine runs on the first call only.\<close>

definition vkd3d_renderdoc_init :: "environment \<Rightarrow> state \<Rightarrow> state" where
  "vkd3d_renderdoc_init e s =
     (if vkd3d_renderdoc_once s then s
      else vkd3d_renderdoc_init_once e (s\<lparr>vkd3d_renderdoc_once := True\<rparr>))"

subsection \<open>Queries and capture control\<close>

definition vkd3d_renderdoc_active :: "state \<Rightarrow> bool \<times> state" where
  "vkd3d_renderdoc_active s = (vkd3d_renderdoc_is_active s, s)"

definition vkd3d_renderdoc_should_capture_shader_hash :: "64 word \<Rightarrow> state \<Rightarrow> bool \<times> state" where
  "vkd3d_renderdoc_should_capture_shader_hash hash s =
     (renderdoc_capture_shader_hash s = hash \<or> renderdoc_capture_shader_hash s = 0, s)"

text \<open>
  \<open>vkd3d_atomic_uint32_increment\<close> adds one to the 32-bit counter and returns the new
  value; calls are taken one after the other.
\<close>

definition vkd3d_atomic_uint32_increment :: "state \<Rightarrow> 32 word \<times> state" where
  "vkd3d_atomic_uint32_increment s =
     (overall_counter s + 1, s\<lparr>overall_counter := overall_counter s + 1\<rparr>)"

definition vkd3d_renderdoc_begin_capture :: "nat \<Rightarrow> state \<Rightarrow> bool \<times> state" where
  "vkd3d_renderdoc_begin_capture instance s =
     (case vkd3d_atomic_uint32_increment s of
        (new, s1) \<Rightarrow>
          (let counter = new - 1
           in if \<not> vkd3d_renderdoc_enable_submit_counter s1 counter then (False, s1)
              else
                (case renderdoc_api s1 of
                   Some api \<Rightarrow>
                     (True, s1\<lparr>api_calls := api_calls s1 @ [StartFrameCapture instance]\<rparr>)
                 | None \<Rightarrow> (True, s1))))"

definition vkd3d_renderdoc_loaded_api :: "state \<Rightarrow> bool \<times> state" where
  "vkd3d_renderdoc_loaded_api s = (renderdoc_api s \<noteq> None, s)"

definition vkd3d_renderdoc_end_capture :: "nat \<Rightarrow> state \<Rightarrow> state" where
  "vkd3d_renderdoc_end_capture instance s =
     (case renderdoc_api s of
        Some api \<Rightarrow> s\<lparr>api_calls := api_calls s @ [EndFrameCapture instance]\<rparr>
      | None \<Rightarrow> s)"

subsection \<open>A caller submitting \<open>n\<close> times in sequence\<close>

text \<open>
  The driver calls \<open>vkd3d_renderdoc_begin_capture\<close> once per submission. The results of
  \<open>n\<close> successive calls, in call order, and the state they leave:
\<close>

fun begin_captures :: "nat \<Rightarrow> nat \<Rightarrow> state \<Rightarrow> bool list \<times> state" where
  "begin_captures 0 instance s = ([], s)"
| "begin_captures (Suc n) instance s =
     (case vkd3d_renderdoc_begin_capture instance s of
        (r, s1) \<Rightarrow> (case begin_captures n instance s1 of (rs, s2) \<Rightarrow> (r # rs, s2)))"

section \<open>Properties\<close>

subsection \<open>Auxiliary facts\<close>

lemma scan_capture_counts_iff: "scan_capture_counts cs counter \<longleftrightarrow> counter \<in> set cs"
  by (induction cs) auto

lemma begin_capture_result:
  "fst (vkd3d_renderdoc_begin_capture instance s)
     \<longleftrightarrow> overall_counter s \<in> set (renderdoc_capture_counts s)"
  by (simp add: vkd3d_renderdoc_begin_capture_def vkd3d_atomic_uint32_increment_def
      vkd3d_renderdoc_enable_submit_counter_def scan_capture_counts_iff split: option.splits)

lemma begin_capture_state:
  "overall_counter (snd (vkd3d_renderdoc_begin_capture instance s)) = overall_counter s + 1"
  "renderdoc_capture_counts (snd (vkd3d_renderdoc_begin_capture instance s)) = renderdoc_capture_counts s"
  "renderdoc_api (snd (vkd3d_renderdoc_begin_capture instance s)) = renderdoc_api s"
  "renderdoc_capture_shader_hash (snd (vkd3d_renderdoc_begin_capture instance s)) = renderdoc_capture_shader_hash s"
  "vkd3d_renderdoc_is_active (snd (vkd3d_renderdoc_begin_capture instance s)) = vkd3d_renderdoc_is_active s"
  by (simp_all add: vkd3d_renderdoc_begin_capture_def vkd3d_atomic_uint32_increment_def
      split: option.splits)

lemma begin_captures_Suc:
  "begin_captures (Suc n) instance s =
     (fst (vkd3d_renderdoc_begin_capture instance s)
        # fst (begin_captures n instance (snd (vkd3d_renderdoc_begin_capture instance s))),
      snd (begin_captures n instance (snd (vkd3d_renderdoc_begin_capture instance s))))"
  by (simp split: prod.splits)

lemma begin_captures_state:
  "overall_counter (snd (begin_captures n instance s)) = overall_counter s + of_nat n"
  "renderdoc_capture_counts (snd (begin_captures n instance s)) = renderdoc_capture_counts s"
  by (induction n arbitrary: s) (simp_all add: begin_captures_Suc begin_capture_state del: begin_captures.simps(2))

lemma begin_captures_results:
  "fst (begin_captures n instance s) =
     map (\<lambda>k. overall_counter s + of_nat k \<in> set (renderdoc_capture_counts s)) [0..<n]"
proof (induction n arbitrary: s)
  case 0
  show ?case by simp
next
  case (Suc n)
  have "map (\<lambda>k. overall_counter s + 1 + of_nat k \<in> set (renderdoc_capture_counts s)) [0..<n]
      = map (\<lambda>k. overall_counter s + of_nat k \<in> set (renderdoc_capture_counts s)) (map Suc [0..<n])"
    by (simp add: ac_simps)
  then show ?case
    unfolding begin_captures_Suc
    by (simp add: Suc.IH begin_capture_result begin_capture_state upt_conv_Cons map_Suc_upt
        del: upt_Suc)
qed


lemma write_log_fields:
  "renderdoc_capture_counts (write_log m s) = renderdoc_capture_counts s"
  "renderdoc_capture_shader_hash (write_log m s) = renderdoc_capture_shader_hash s"
  "renderdoc_api (write_log m s) = renderdoc_api s"
  "vkd3d_renderdoc_is_active (write_log m s) = vkd3d_renderdoc_is_active s"
  "overall_counter (write_log m s) = overall_counter s"
  "vkd3d_renderdoc_once (write_log m s) = vkd3d_renderdoc_once s"
  "api_calls (write_log m s) = api_calls s"
  "log (write_log m s) = log s @ [m]"
  by (simp_all add: write_log_def)

lemma append_count_fields:
  "renderdoc_capture_counts (append_count c s) = renderdoc_capture_counts s @ [c]"
  "renderdoc_capture_shader_hash (append_count c s) = renderdoc_capture_shader_hash s"
  "renderdoc_api (append_count c s) = renderdoc_api s"
  "vkd3d_renderdoc_is_active (append_count c s) = vkd3d_renderdoc_is_active s"
  "overall_counter (append_count c s) = overall_counter s"
  "vkd3d_renderdoc_once (append_count c s) = vkd3d_renderdoc_once s"
  "api_calls (append_count c s) = api_calls s"
  "log (append_count c s) = log s @ [TRACE_capture_of_submit c]"
  by (simp_all add: append_count_def write_log_def)

text \<open>One pass of the loop body, by the outcome of \<open>strtoul\<close> and the character at \<open>endp\<close>.\<close>

lemma count_list_step:
  assumes "strtoul dm (e # es) 0 = (v, endp, errno)"
  shows "vkd3d_renderdoc_init_capture_count_list dm (e # es) s =
     (if errno \<noteq> 0 then write_log ERR_parsing_auto_counts s
      else case endp of
             [] \<Rightarrow> append_count (word_of_nat v) s
           | c # rest \<Rightarrow>
               if c = CHR '','' 
               then vkd3d_renderdoc_init_capture_count_list dm rest (append_count (word_of_nat v) s)
               else write_log (ERR_unexpected_character c) (append_count (word_of_nat v) s))"
  using assms by (simp add: Let_def split: list.splits)

lemma count_list_invariant:
  "renderdoc_capture_shader_hash (vkd3d_renderdoc_init_capture_count_list dm env s)
     = renderdoc_capture_shader_hash s \<and>
   renderdoc_api (vkd3d_renderdoc_init_capture_count_list dm env s) = renderdoc_api s \<and>
   vkd3d_renderdoc_is_active (vkd3d_renderdoc_init_capture_count_list dm env s)
     = vkd3d_renderdoc_is_active s \<and>
   overall_counter (vkd3d_renderdoc_init_capture_count_list dm env s) = overall_counter s \<and>
   vkd3d_renderdoc_once (vkd3d_renderdoc_init_capture_count_list dm env s)
     = vkd3d_renderdoc_once s \<and>
   api_calls (vkd3d_renderdoc_init_capture_count_list dm env s) = api_calls s \<and>
   (\<exists>xs. renderdoc_capture_counts (vkd3d_renderdoc_init_capture_count_list dm env s)
           = renderdoc_capture_counts s @ xs)"
proof (induction dm env s rule: vkd3d_renderdoc_init_capture_count_list.induct)
  case (1 dm s)
  show ?case by simp
next
  case (2 dm e es s)
  obtain v endp errno where st: "strtoul dm (e # es) 0 = (v, endp, errno)"
    by (cases "strtoul dm (e # es) 0") auto
  show ?case
  proof (cases "errno = 0 \<and> (\<exists>rest. endp = CHR '','' # rest)")
    case False
    then show ?thesis
      unfolding count_list_step [OF st]
      by (auto simp: write_log_fields append_count_fields split: list.splits)
  next
    case True
    then obtain rest where e: "\<not> errno \<noteq> 0" and r: "endp = CHR '','' # rest"
      by blast
    note ih = "2.IH"(2) [OF st [symmetric] refl e refl refl r refl]
    from e r have "vkd3d_renderdoc_init_capture_count_list dm (e # es) s =
        vkd3d_renderdoc_init_capture_count_list dm rest (append_count (word_of_nat v) s)"
      unfolding count_list_step [OF st] by simp
    with ih show ?thesis
      by (auto simp: append_count_fields)
  qed
qed

lemma count_list_appends:
  "\<exists>xs. \<forall>s. renderdoc_capture_counts (vkd3d_renderdoc_init_capture_count_list dm env s)
           = renderdoc_capture_counts s @ xs"
proof (rule vkd3d_renderdoc_init_capture_count_list.induct
    [where P = "\<lambda>dm env s0. \<exists>xs. \<forall>s. renderdoc_capture_counts
        (vkd3d_renderdoc_init_capture_count_list dm env s) = renderdoc_capture_counts s @ xs"
      and ?a2.0 = initial_state], goal_cases)
  case (1 dm s0)
  show ?case by simp
next
  case (2 dm e es s0)
  obtain v endp errno where st: "strtoul dm (e # es) 0 = (v, endp, errno)"
    by (cases "strtoul dm (e # es) 0") auto
  show ?case
  proof (cases "errno = 0 \<and> (\<exists>rest. endp = CHR '','' # rest)")
    case False
    then show ?thesis
      unfolding count_list_step [OF st]
      by (cases endp) (auto simp: write_log_fields append_count_fields)
  next
    case True
    then obtain rest where e: "\<not> errno \<noteq> 0" and r: "endp = CHR '','' # rest"
      by blast
    from 2(2) [OF st [symmetric] refl e refl refl r refl]
    obtain xs where xs: "\<And>s. renderdoc_capture_counts
        (vkd3d_renderdoc_init_capture_count_list dm rest s) = renderdoc_capture_counts s @ xs"
      by blast
    from e r have "\<And>s. vkd3d_renderdoc_init_capture_count_list dm (e # es) s =
        vkd3d_renderdoc_init_capture_count_list dm rest (append_count (word_of_nat v) s)"
      unfolding count_list_step [OF st] by simp
    then show ?thesis
      by (auto simp: xs append_count_fields)
  qed
qed

lemmas strtox_eval =
  strtoul_def strtoull_def strtox_def Let_def skip_sign_def is_negative_def has_hex_prefix_def
  select_base_def convert_def has_digit_def digit_in_base_def digit_value_def isspace_def
  is_x_def ULLONG_MAX_def ERANGE_def

lemma load_renderdoc_api_fields:
  "renderdoc_capture_counts (load_renderdoc_api e s) = renderdoc_capture_counts s"
  "renderdoc_capture_shader_hash (load_renderdoc_api e s) = renderdoc_capture_shader_hash s"
  "vkd3d_renderdoc_is_active (load_renderdoc_api e s) = vkd3d_renderdoc_is_active s"
  "overall_counter (load_renderdoc_api e s) = overall_counter s"
  by (simp_all add: load_renderdoc_api_def write_log_def split: option.splits prod.splits)

lemma init_neither:
  assumes "VKD3D_AUTO_CAPTURE_SHADER e = None" and "VKD3D_AUTO_CAPTURE_COUNTS e = None"
  shows "vkd3d_renderdoc_init e initial_state =
    initial_state\<lparr>vkd3d_renderdoc_once := True, log := [WARN_auto_capture_not_enabled]\<rparr>"
  using assms
  by (simp add: vkd3d_renderdoc_init_def vkd3d_renderdoc_init_once_def initial_state_def
      write_log_def)

lemma init_counter: "overall_counter (vkd3d_renderdoc_init e initial_state) = 0"
  using count_list_invariant
  by (simp add: vkd3d_renderdoc_init_def vkd3d_renderdoc_init_once_def Let_def
      load_renderdoc_api_fields write_log_fields initial_state_def split: option.splits)

lemma init_hash:
  "renderdoc_capture_shader_hash (vkd3d_renderdoc_init e initial_state) =
     (case VKD3D_AUTO_CAPTURE_SHADER e of
        None \<Rightarrow> 0
      | Some h \<Rightarrow> word_of_nat (fst (strtoull h 16)))"
  using count_list_invariant
  by (simp add: vkd3d_renderdoc_init_def vkd3d_renderdoc_init_once_def Let_def
      load_renderdoc_api_fields write_log_fields initial_state_def split: option.splits)

lemma init_active:
  "vkd3d_renderdoc_is_active (vkd3d_renderdoc_init e initial_state) \<longleftrightarrow>
     VKD3D_AUTO_CAPTURE_SHADER e \<noteq> None \<or> VKD3D_AUTO_CAPTURE_COUNTS e \<noteq> None"
  by (auto simp add: vkd3d_renderdoc_init_def vkd3d_renderdoc_init_once_def Let_def
      load_renderdoc_api_fields write_log_fields initial_state_def split: option.splits)

lemma init_counts_absent:
  assumes "VKD3D_AUTO_CAPTURE_COUNTS e = None"
  shows "renderdoc_capture_counts (vkd3d_renderdoc_init e initial_state) =
    (if VKD3D_AUTO_CAPTURE_SHADER e = None then [] else [0])"
  using assms
  by (simp add: vkd3d_renderdoc_init_def vkd3d_renderdoc_init_once_def Let_def
      load_renderdoc_api_fields write_log_fields initial_state_def split: option.splits)

lemma init_counts_present:
  assumes "VKD3D_AUTO_CAPTURE_COUNTS e = Some c"
  shows "renderdoc_capture_counts (vkd3d_renderdoc_init e initial_state) =
    renderdoc_capture_counts (vkd3d_renderdoc_init_capture_count_list (abi e) c initial_state)"
proof -
  obtain xs where xs: "\<And>s. renderdoc_capture_counts
      (vkd3d_renderdoc_init_capture_count_list (abi e) c s) = renderdoc_capture_counts s @ xs"
    using count_list_appends [of "abi e" c] by blast
  show ?thesis
    using assms
    by (simp add: vkd3d_renderdoc_init_def vkd3d_renderdoc_init_once_def Let_def xs
        load_renderdoc_api_fields write_log_fields initial_state_def split: option.splits)
qed

lemma initial_state_fields:
  "renderdoc_api initial_state = None"
  "renderdoc_capture_shader_hash initial_state = 0"
  "renderdoc_capture_counts initial_state = []"
  "vkd3d_renderdoc_is_active initial_state = False"
  "overall_counter initial_state = 0"
  "vkd3d_renderdoc_once initial_state = False"
  by (simp_all add: initial_state_def)

lemma parse_1_x_3:
  "vkd3d_renderdoc_init_capture_count_list dm ''1,x,3'' s =
     write_log (ERR_unexpected_character CHR ''x'') (append_count 0 (append_count 1 s))"
  by (cases dm) (simp_all add: strtox_eval)

lemma parse_0_2_5:
  "vkd3d_renderdoc_init_capture_count_list dm ''0,2,5'' s =
     append_count 5 (append_count 2 (append_count 0 s))"
  by (cases dm) (simp_all add: strtox_eval)

lemma parse_0x10_20:
  "vkd3d_renderdoc_init_capture_count_list dm ''0x10,20'' s =
     append_count 20 (append_count 16 s)"
  by (cases dm) (simp_all add: strtox_eval)

lemma strtoull_empty: "strtoull [] 16 = (0, [], 0)"
  by (simp add: strtox_eval)

lemma strtoul_errno: "snd (snd (strtoul dm nptr base)) = 0 \<or> snd (snd (strtoul dm nptr base)) = ERANGE"
  by (simp add: strtoul_def strtox_def convert_def Let_def split: prod.splits)

lemma word32_mem_unat:
  "(w :: 32 word) \<in> set cs \<longleftrightarrow> unat w \<in> unat ` set cs"
proof
  assume "w \<in> set cs"
  then show "unat w \<in> unat ` set cs" by (rule imageI)
next
  assume "unat w \<in> unat ` set cs"
  then obtain x where x: "x \<in> set cs" and "unat w = unat x" by auto
  then have "w = x" by (simp add: word_unat_eq_iff)
  with x show "w \<in> set cs" by simp
qed

subsection \<open>The claims\<close>

text \<open>
  C1. The spec gives \<open>"1,x,3"\<close> the index list \<open>{1}\<close>: parsing is to stop at \<open>x\<close>, keep what
  was parsed before and add nothing else. The loop does stop at \<open>x\<close> and drops the \<open>3\<close>, but
  only \<open>errno\<close> is tested after \<open>strtoul\<close>, and a token without digits converts to 0 with
  \<open>errno\<close> untouched and \<open>endp\<close> left at the token. So 0 is stored before the character
  check reports \<open>x\<close>: the list is \<open>[1, 0]\<close>, and the first submission is captured although
  no index 0 was configured.
\<close>

theorem counts_1_x_3_appends_zero:
  "renderdoc_capture_counts
     (vkd3d_renderdoc_init (e\<lparr>VKD3D_AUTO_CAPTURE_COUNTS := Some ''1,x,3''\<rparr>) initial_state)
     = [1, 0] \<and>
   vkd3d_renderdoc_init_capture_count_list dm ''1,x,3'' s
     = write_log (ERR_unexpected_character CHR ''x'') (append_count 0 (append_count 1 s)) \<and>
   fst (vkd3d_renderdoc_begin_capture instance
     (vkd3d_renderdoc_init (e\<lparr>VKD3D_AUTO_CAPTURE_COUNTS := Some ''1,x,3''\<rparr>) initial_state))
     = True"
  by (simp add: init_counts_present init_counter parse_1_x_3 append_count_fields
      write_log_fields initial_state_fields begin_capture_result
      del: vkd3d_renderdoc_init_capture_count_list.simps)

text \<open>
  C2 (as amended). With capture enabled and an empty index list, as after a counts
  variable that is set to the empty string, no submission is captured:
  \<open>vkd3d_renderdoc_begin_capture\<close> returns false at every counter value, also at 0,
  and so for each of any number of successive calls.
\<close>

theorem empty_count_list_never_captures:
  "(VKD3D_AUTO_CAPTURE_COUNTS e = Some [] \<longrightarrow>
      vkd3d_renderdoc_is_active (vkd3d_renderdoc_init e initial_state) \<and>
      renderdoc_capture_counts (vkd3d_renderdoc_init e initial_state) = []) \<and>
   (renderdoc_capture_counts s = [] \<longrightarrow>
      fst (vkd3d_renderdoc_begin_capture instance s) = False \<and>
      fst (begin_captures n instance s) = replicate n False)"
  by (simp add: init_active init_counts_present begin_capture_result begin_captures_results
      initial_state_fields map_replicate_const)

text \<open>
  The theorem at a concrete configuration and at three successive submissions.
\<close>

theorem empty_count_list_never_captures_witness:
  "renderdoc_capture_counts
     (vkd3d_renderdoc_init
        \<lparr>abi = LLP64, VKD3D_AUTO_CAPTURE_SHADER = Some ''dead'',
         VKD3D_AUTO_CAPTURE_COUNTS = Some [], renderdoc_module = True,
         RENDERDOC_GetAPI = Some (1, Some 7)\<rparr> initial_state) = [] \<and>
   fst (begin_captures 3 0
     (vkd3d_renderdoc_init
        \<lparr>abi = LLP64, VKD3D_AUTO_CAPTURE_SHADER = Some ''dead'',
         VKD3D_AUTO_CAPTURE_COUNTS = Some [], renderdoc_module = True,
         RENDERDOC_GetAPI = Some (1, Some 7)\<rparr> initial_state)) = [False, False, False]"
  using empty_count_list_never_captures [of "\<lparr>abi = LLP64, VKD3D_AUTO_CAPTURE_SHADER = Some ''dead'',
         VKD3D_AUTO_CAPTURE_COUNTS = Some [], renderdoc_module = True,
         RENDERDOC_GetAPI = Some (1, Some 7)\<rparr>"
      "vkd3d_renderdoc_init
        \<lparr>abi = LLP64, VKD3D_AUTO_CAPTURE_SHADER = Some ''dead'',
         VKD3D_AUTO_CAPTURE_COUNTS = Some [], renderdoc_module = True,
         RENDERDOC_GetAPI = Some (1, Some 7)\<rparr> initial_state" 0 3]
  by (simp add: numeral_3_eq_3)

text \<open>
  C2 as stated fails: with only the counts variable set, and set to the empty string,
  capture is active and the list is empty, yet the call that observes counter value 0
  returns false.
\<close>

theorem empty_count_list_counterexample:
  "vkd3d_renderdoc_is_active
     (vkd3d_renderdoc_init
        \<lparr>abi = LP64, VKD3D_AUTO_CAPTURE_SHADER = None, VKD3D_AUTO_CAPTURE_COUNTS = Some [],
         renderdoc_module = False, RENDERDOC_GetAPI = None\<rparr> initial_state) \<and>
   renderdoc_capture_counts
     (vkd3d_renderdoc_init
        \<lparr>abi = LP64, VKD3D_AUTO_CAPTURE_SHADER = None, VKD3D_AUTO_CAPTURE_COUNTS = Some [],
         renderdoc_module = False, RENDERDOC_GetAPI = None\<rparr> initial_state) = [] \<and>
   overall_counter
     (vkd3d_renderdoc_init
        \<lparr>abi = LP64, VKD3D_AUTO_CAPTURE_SHADER = None, VKD3D_AUTO_CAPTURE_COUNTS = Some [],
         renderdoc_module = False, RENDERDOC_GetAPI = None\<rparr> initial_state) = 0 \<and>
   fst (vkd3d_renderdoc_begin_capture 0
     (vkd3d_renderdoc_init
        \<lparr>abi = LP64, VKD3D_AUTO_CAPTURE_SHADER = None, VKD3D_AUTO_CAPTURE_COUNTS = Some [],
         renderdoc_module = False, RENDERDOC_GetAPI = None\<rparr> initial_state)) = False"
  by (simp add: init_active init_counter init_counts_present begin_capture_result
      initial_state_fields)

text \<open>
  C3. After initialisation with the counts variable \<open>"0,2,5"\<close>, whatever the rest of the
  environment, seven successive calls of \<open>vkd3d_renderdoc_begin_capture\<close> return true, false,
  true, false, false, true, false.
\<close>

theorem counts_0_2_5_capture_sequence:
  "fst (begin_captures 7 instance
     (vkd3d_renderdoc_init (e\<lparr>VKD3D_AUTO_CAPTURE_COUNTS := Some ''0,2,5''\<rparr>) initial_state))
   = [True, False, True, False, False, True, False]"
  by (simp add: begin_captures_results init_counter init_counts_present parse_0_2_5
      append_count_fields initial_state_fields upt_rec [of _ "numeral _"]
      del: vkd3d_renderdoc_init_capture_count_list.simps)

text \<open>
  C4. A call of \<open>vkd3d_renderdoc_begin_capture\<close> returns true exactly when the value the
  counter had before the increment is in the index list. The result is the same for every
  value of \<open>renderdoc_api\<close>, the null pointer included.
\<close>

theorem begin_capture_iff_member:
  "fst (vkd3d_renderdoc_begin_capture instance s)
     = (overall_counter s \<in> set (renderdoc_capture_counts s)) \<and>
   fst (vkd3d_renderdoc_begin_capture instance (s\<lparr>renderdoc_api := h\<rparr>))
     = fst (vkd3d_renderdoc_begin_capture instance s) \<and>
   fst (vkd3d_renderdoc_begin_capture instance (s\<lparr>renderdoc_api := None\<rparr>))
     = (overall_counter s \<in> set (renderdoc_capture_counts s))"
  by (simp add: begin_capture_result)

text \<open>
  C5. When neither environment variable is set, \<open>vkd3d_renderdoc_active\<close> returns false and
  \<open>vkd3d_renderdoc_begin_capture\<close> returns false: for each of any number of successive
  calls, and at every counter value.
\<close>

theorem no_environment_inactive:
  "fst (vkd3d_renderdoc_active
     (vkd3d_renderdoc_init
        (e\<lparr>VKD3D_AUTO_CAPTURE_SHADER := None, VKD3D_AUTO_CAPTURE_COUNTS := None\<rparr>)
        initial_state)) = False \<and>
   fst (begin_captures n instance
     (vkd3d_renderdoc_init
        (e\<lparr>VKD3D_AUTO_CAPTURE_SHADER := None, VKD3D_AUTO_CAPTURE_COUNTS := None\<rparr>)
        initial_state)) = replicate n False \<and>
   fst (vkd3d_renderdoc_begin_capture instance
     ((vkd3d_renderdoc_init
        (e\<lparr>VKD3D_AUTO_CAPTURE_SHADER := None, VKD3D_AUTO_CAPTURE_COUNTS := None\<rparr>)
        initial_state)\<lparr>overall_counter := counter\<rparr>)) = False"
  by (simp add: vkd3d_renderdoc_active_def init_active init_counts_absent
      begin_capture_result begin_captures_results map_replicate_const)

text \<open>
  C6. \<open>vkd3d_renderdoc_should_capture_shader_hash\<close> returns true exactly when the configured
  hash is zero or equals its argument, and leaves the whole state as it was.
\<close>

theorem should_capture_shader_hash_pure:
  "vkd3d_renderdoc_should_capture_shader_hash h s =
     (renderdoc_capture_shader_hash s = 0 \<or> renderdoc_capture_shader_hash s = h, s)"
  by (auto simp: vkd3d_renderdoc_should_capture_shader_hash_def)

text \<open>
  C7. When the shader variable is not set, is empty, or is text that \<open>strtoull\<close> in base 16
  converts to 0, the configured hash is zero after initialisation and
  \<open>vkd3d_renderdoc_should_capture_shader_hash\<close> returns true for every hash.
\<close>

theorem unparsed_hash_matches_all:
  assumes "VKD3D_AUTO_CAPTURE_SHADER e = None
     \<or> VKD3D_AUTO_CAPTURE_SHADER e = Some []
     \<or> (\<exists>h. VKD3D_AUTO_CAPTURE_SHADER e = Some h \<and> fst (strtoull h 16) = 0)"
  shows "renderdoc_capture_shader_hash (vkd3d_renderdoc_init e initial_state) = 0 \<and>
     fst (vkd3d_renderdoc_should_capture_shader_hash x
            (vkd3d_renderdoc_init e initial_state)) = True"
proof -
  from assms have "renderdoc_capture_shader_hash (vkd3d_renderdoc_init e initial_state) = 0"
    by (auto simp: init_hash strtoull_empty)
  then show ?thesis
    by (simp add: vkd3d_renderdoc_should_capture_shader_hash_def)
qed

text \<open>
  The theorem at the shader variable \<open>"shader"\<close>, which starts with no hexadecimal digit.
\<close>

theorem unparsed_hash_matches_all_witness:
  "renderdoc_capture_shader_hash
     (vkd3d_renderdoc_init
        \<lparr>abi = LP64, VKD3D_AUTO_CAPTURE_SHADER = Some ''shader'',
         VKD3D_AUTO_CAPTURE_COUNTS = Some ''3'', renderdoc_module = False,
         RENDERDOC_GetAPI = None\<rparr> initial_state) = 0 \<and>
   fst (vkd3d_renderdoc_should_capture_shader_hash 48879
     (vkd3d_renderdoc_init
        \<lparr>abi = LP64, VKD3D_AUTO_CAPTURE_SHADER = Some ''shader'',
         VKD3D_AUTO_CAPTURE_COUNTS = Some ''3'', renderdoc_module = False,
         RENDERDOC_GetAPI = None\<rparr> initial_state)) = True"
proof -
  have "fst (strtoull ''shader'' 16) = 0"
    by (simp add: strtox_eval)
  then show ?thesis
    using unparsed_hash_matches_all [of "\<lparr>abi = LP64, VKD3D_AUTO_CAPTURE_SHADER = Some ''shader'',
         VKD3D_AUTO_CAPTURE_COUNTS = Some ''3'', renderdoc_module = False,
         RENDERDOC_GetAPI = None\<rparr>" 48879]
    by simp
qed

text \<open>
  C8. When the counts variable is not set and the shader variable is, the index list after
  initialisation is \<open>[0]\<close>; \<open>vkd3d_renderdoc_begin_capture\<close> then returns true exactly at
  counter value 0, and the results of \<open>n\<close> successive calls are true exactly where the call
  number is 0 in 32 bits.
\<close>

theorem counts_absent_default_zero:
  "renderdoc_capture_counts
     (vkd3d_renderdoc_init
        (e\<lparr>VKD3D_AUTO_CAPTURE_SHADER := Some h, VKD3D_AUTO_CAPTURE_COUNTS := None\<rparr>)
        initial_state) = [0] \<and>
   fst (vkd3d_renderdoc_begin_capture instance
     ((vkd3d_renderdoc_init
        (e\<lparr>VKD3D_AUTO_CAPTURE_SHADER := Some h, VKD3D_AUTO_CAPTURE_COUNTS := None\<rparr>)
        initial_state)\<lparr>overall_counter := counter\<rparr>)) = (counter = 0) \<and>
   fst (begin_captures n instance
     (vkd3d_renderdoc_init
        (e\<lparr>VKD3D_AUTO_CAPTURE_SHADER := Some h, VKD3D_AUTO_CAPTURE_COUNTS := None\<rparr>)
        initial_state)) = map (\<lambda>k. (word_of_nat k :: 32 word) = 0) [0..<n]"
  by (simp add: init_counts_absent init_counter begin_capture_result begin_captures_results)

text \<open>
  C9 (as amended). The counter starts at 0, before and after initialisation. Every call of
  \<open>vkd3d_renderdoc_begin_capture\<close> adds one to it in 32-bit arithmetic and tests the value
  it had before the addition against the index list, whatever the index list and
  \<open>renderdoc_api\<close> are; the value grows by one unless it was \<open>2^32 - 1\<close>, where it wraps
  to 0. From any state whose counter is 0, the call made after \<open>n\<close> earlier calls observes
  the index \<open>n mod 2^32\<close>: it returns true exactly when that number is in the list, and so
  does each of the \<open>n\<close> calls before it at its own number.
\<close>

theorem counter_increments_modulo:
  "overall_counter initial_state = 0 \<and>
   overall_counter (vkd3d_renderdoc_init e initial_state) = 0 \<and>
   overall_counter (snd (vkd3d_renderdoc_begin_capture instance t)) = overall_counter t + 1 \<and>
   fst (vkd3d_renderdoc_begin_capture instance t)
     = (unat (overall_counter t) \<in> unat ` set (renderdoc_capture_counts t)) \<and>
   (overall_counter t \<noteq> - 1 \<longrightarrow>
      unat (overall_counter (snd (vkd3d_renderdoc_begin_capture instance t)))
        = unat (overall_counter t) + 1) \<and>
   (overall_counter s = 0 \<longrightarrow>
      unat (overall_counter (snd (begin_captures n instance s))) = n mod 2 ^ 32 \<and>
      fst (vkd3d_renderdoc_begin_capture instance (snd (begin_captures n instance s)))
        = (n mod 2 ^ 32 \<in> unat ` set (renderdoc_capture_counts s)) \<and>
      fst (begin_captures n instance s)
        = map (\<lambda>k. k mod 2 ^ 32 \<in> unat ` set (renderdoc_capture_counts s)) [0..<n])"
proof -
  have grow: "unat (overall_counter t + 1) = unat (overall_counter t) + 1"
    if "overall_counter t \<noteq> - 1"
  proof -
    from that have "overall_counter t + 1 \<noteq> 0"
      by (simp add: eq_neg_iff_add_eq_0)
    then show ?thesis
      using unatSuc [of "overall_counter t"] by (simp add: add.commute)
  qed
  have idx: "((word_of_nat k :: 32 word) \<in> set cs) = (k mod 2 ^ 32 \<in> unat ` set cs)" for k cs
    using word32_mem_unat [of "word_of_nat k" cs] by (simp add: unat_of_nat)
  show ?thesis
    using grow word32_mem_unat [of "overall_counter t" "renderdoc_capture_counts t"]
    by (simp add: begin_capture_result begin_capture_state begin_captures_state
        begin_captures_results init_counter initial_state_fields unat_of_nat idx)
qed

text \<open>
  The theorem at a state whose counter 5 is in the list, and from a state with counter 0,
  list \<open>[3]\<close> and a loaded API: after \<open>2^32 + 3\<close> calls the counter is 3 again and the
  next call captures; of the first five calls only the fourth does.
\<close>

theorem counter_increments_modulo_witness:
  "unat (overall_counter (snd (vkd3d_renderdoc_begin_capture 0
      (initial_state\<lparr>renderdoc_capture_counts := [5], overall_counter := 5\<rparr>)))) = 6 \<and>
   fst (vkd3d_renderdoc_begin_capture 0
      (initial_state\<lparr>renderdoc_capture_counts := [5], overall_counter := 5\<rparr>)) = True \<and>
   unat (overall_counter (snd (begin_captures 4294967299 0
      (initial_state\<lparr>renderdoc_api := Some 1, renderdoc_capture_counts := [3]\<rparr>)))) = 3 \<and>
   fst (vkd3d_renderdoc_begin_capture 0 (snd (begin_captures 4294967299 0
      (initial_state\<lparr>renderdoc_api := Some 1, renderdoc_capture_counts := [3]\<rparr>)))) = True \<and>
   fst (begin_captures 5 0
      (initial_state\<lparr>renderdoc_api := Some 1, renderdoc_capture_counts := [3]\<rparr>))
     = [False, False, False, True, False]"
proof -
  let ?e = "\<lparr>abi = LP64, VKD3D_AUTO_CAPTURE_SHADER = None, VKD3D_AUTO_CAPTURE_COUNTS = Some ''3'',
      renderdoc_module = False, RENDERDOC_GetAPI = None\<rparr>"
  let ?t = "initial_state\<lparr>renderdoc_capture_counts := [5], overall_counter := 5\<rparr>"
  let ?s = "initial_state\<lparr>renderdoc_api := Some 1, renderdoc_capture_counts := [3]\<rparr>"
  have z: "overall_counter ?s = 0" and t: "overall_counter ?t \<noteq> - 1"
    by (simp_all add: initial_state_def)
  note far = counter_increments_modulo [of ?e 0 ?t ?s 4294967299]
  note near = counter_increments_modulo [of ?e 0 ?t ?s 5]
  from far t have "unat (overall_counter (snd (vkd3d_renderdoc_begin_capture 0 ?t))) = 6"
    and "fst (vkd3d_renderdoc_begin_capture 0 ?t) = True"
    by (simp_all add: initial_state_def)
  moreover from far z
  have "unat (overall_counter (snd (begin_captures 4294967299 0 ?s))) = 3"
    and "fst (vkd3d_renderdoc_begin_capture 0 (snd (begin_captures 4294967299 0 ?s))) = True"
    by (simp_all add: initial_state_def)
  moreover from near z
  have "fst (begin_captures 5 0 ?s) = [False, False, False, True, False]"
    by (simp add: initial_state_def upt_rec [of _ "numeral _"])
  ultimately show ?thesis
    by (simp only: simp_thms)
qed

text \<open>
  C9 as stated fails: \<open>overall_counter\<close> is a \<open>uint32_t\<close>. After \<open>2^32 - 1\<close> calls it holds
  \<open>2^32 - 1\<close>; the next call takes it down to 0, so the counter has decreased and the call
  number \<open>2^32 + 1\<close> observes index 0, not \<open>2^32\<close>.
\<close>

theorem counter_wraps_counterexample:
  "unat (overall_counter (snd (begin_captures 4294967295 0 initial_state))) = 4294967295 \<and>
   unat (overall_counter (snd (begin_captures 4294967296 0 initial_state))) = 0"
  by (simp add: begin_captures_state initial_state_fields)

text \<open>
  C10. In any pass of the parsing loop: when \<open>strtoul\<close> reports \<open>ERANGE\<close>, the loop stops
  with the index list as it was, the out-of-range token not stored. In every other case
  \<open>errno\<close> is 0 and the converted value is stored before anything else happens, so the
  list of the pass continues the earlier one by that value; in particular the stop at an
  unexpected character comes after the value has been stored.
\<close>

theorem range_error_stops_without_append:
  assumes "strtoul dm (e # es) 0 = (v, endp, errno)"
  shows "(errno = ERANGE \<longrightarrow>
            vkd3d_renderdoc_init_capture_count_list dm (e # es) s
              = write_log ERR_parsing_auto_counts s \<and>
            renderdoc_capture_counts (vkd3d_renderdoc_init_capture_count_list dm (e # es) s)
              = renderdoc_capture_counts s) \<and>
         (errno \<noteq> ERANGE \<longrightarrow>
            errno = 0 \<and>
            (\<exists>xs. renderdoc_capture_counts (vkd3d_renderdoc_init_capture_count_list dm (e # es) s)
                    = renderdoc_capture_counts s @ word_of_nat v # xs) \<and>
            (\<forall>c rest. endp = c # rest \<and> c \<noteq> CHR '','' \<longrightarrow>
               vkd3d_renderdoc_init_capture_count_list dm (e # es) s
                 = write_log (ERR_unexpected_character c) (append_count (word_of_nat v) s)))"
proof (cases "errno = ERANGE")
  case True
  then show ?thesis
    unfolding count_list_step [OF assms]
    by (simp add: ERANGE_def write_log_fields)
next
  case False
  with strtoul_errno [of dm "e # es" 0] assms have z: "errno = 0"
    by simp
  obtain xs where xs: "\<And>rest. renderdoc_capture_counts
      (vkd3d_renderdoc_init_capture_count_list dm rest (append_count (word_of_nat v) s))
        = renderdoc_capture_counts (append_count (word_of_nat v) s) @ xs rest"
    using count_list_invariant [of dm _ "append_count (word_of_nat v) s"] by metis
  from False z show ?thesis
    unfolding count_list_step [OF assms]
    by (cases endp) (auto simp: xs write_log_fields append_count_fields)
qed

text \<open>
  The theorem at two passes that follow a stored 7, where \<open>unsigned long\<close> has 32 bits:
  \<open>4294967296\<close> is out of range and leaves \<open>[7]\<close>; \<open>2x\<close> stores 2 and then stops at \<open>x\<close>.
\<close>

theorem range_error_stops_without_append_witness:
  "renderdoc_capture_counts
     (vkd3d_renderdoc_init_capture_count_list LLP64 ''4294967296,3'' (append_count 7 initial_state))
     = [7] \<and>
   renderdoc_capture_counts
     (vkd3d_renderdoc_init_capture_count_list LLP64 ''2x,3'' (append_count 7 initial_state))
     = [7, 2]"
proof -
  have a: "strtoul LLP64 ''4294967296,3'' 0 = (4294967295, '',3'', ERANGE)"
    by (simp add: strtox_eval)
  have b: "strtoul LLP64 ''2x,3'' 0 = (2, ''x,3'', 0)"
    by (simp add: strtox_eval)
  show ?thesis
    using range_error_stops_without_append [OF a, of "append_count 7 initial_state"] range_error_stops_without_append [OF b, of "append_count 7 initial_state"]
    by (simp add: ERANGE_def append_count_fields write_log_fields initial_state_fields
        del: vkd3d_renderdoc_init_capture_count_list.simps)
qed

end
